theory Spec2Isabelle
  imports Main "HOL-Library.Word"
begin

section \<open>Values shared by the whole file\<close>

text \<open>
  Go's \<open>int32\<close> and \<open>int64\<close> are words of that width: \<open>+\<close> wraps around and
  comparisons read the word as two's complement (\<open>sint\<close>).
\<close>

type_synonym int32 = "32 word"
type_synonym int64 = "64 word"

text \<open>
  The handles of the Kafka library. A value of one of these types is a live (non-nil)
  handle; a Go interface variable that may be nil is an \<open>option\<close> of it.
\<close>

datatype sarama_Client = Client nat
datatype sarama_Consumer = Consumer nat
datatype sarama_PartitionConsumer = PartitionConsumer nat
datatype chan = Chan nat

text \<open>
  A Go \<open>error\<close> value (non-nil). \<open>fmt.Errorf\<close> and \<open>log.Printf\<close> are kept as
  their format string and their arguments; the text they print is not computed.
\<close>

datatype error = LibError string | Errorf string "fmtarg list"
and fmtarg = VStr string | VInt int | VStrs "string list" | VErr error

text \<open>
  What the code does to the outside, in the order it does it: the lines it logs and the
  calls it makes on the library.
\<close>

datatype event =
    Printf string "fmtarg list"
  | Call_newClient "string list"
  | Call_newConsumerFromClient "sarama_Client option"
  | Call_GetOffset sarama_Client string int32 int64
  | Call_Partitions sarama_Consumer string
  | Call_ConsumePartition sarama_Consumer string int32 int64
  | Call_PartitionConsumer_Close sarama_PartitionConsumer
  | Call_Consumer_Close sarama_Consumer
  | Call_Client_Close sarama_Client

text \<open>
  A function either returns or stops the program with a run-time panic (a method called
  on a nil interface value).
\<close>

datatype 'a res = Done 'a | Panic

text \<open>
  The library \<open>github.com/Shopify/sarama\<close> and the brokers behind it, as the answers
  they give. A Go result \<open>(T, error)\<close> is \<open>error + T\<close>: the library returns a nil
  handle with an error and a handle with a nil error. \<open>Close\<close> returns an error or nil.
\<close>

record sarama =
  NewClient :: "string list \<Rightarrow> error + sarama_Client"
  NewConsumerFromClient :: "sarama_Client option \<Rightarrow> error + sarama_Consumer"
  GetOffset :: "sarama_Client \<Rightarrow> string \<Rightarrow> int32 \<Rightarrow> int64 \<Rightarrow> error + int64"
  Client_Close :: "sarama_Client \<Rightarrow> error option"
  Partitions :: "sarama_Consumer \<Rightarrow> string \<Rightarrow> error + int32 list"
  ConsumePartition ::
    "sarama_Consumer \<Rightarrow> string \<Rightarrow> int32 \<Rightarrow> int64 \<Rightarrow> error + sarama_PartitionConsumer"
  Consumer_Close :: "sarama_Consumer \<Rightarrow> error option"
  PartitionConsumer_Close :: "sarama_PartitionConsumer \<Rightarrow> error option"
  Messages :: "sarama_PartitionConsumer \<Rightarrow> chan"

text \<open>
  Modelled from the spec: the two sentinel offsets of the library, \<open>sarama.OffsetNewest\<close>
  ("only future messages") and \<open>sarama.OffsetOldest\<close> ("earliest available"), which the
  spec gives as the integers \<open>-1\<close> and \<open>-2\<close>.
\<close>

definition OffsetNewest :: int64 where
  "OffsetNewest = - 1"

definition OffsetOldest :: int64 where
  "OffsetOldest = - 2"

section \<open>\<open>strconv.ParseInt(s, 10, 64)\<close> and \<open>strings.Join\<close>\<close>

text \<open>
  The two functions of Go's standard library that the code calls, as documented there.
  \<open>ParseInt\<close> with base 10 and 64 bits accepts an optional sign followed by one or more
  decimal digits and fails on any other text and on a value outside the signed 64-bit
  range. The code only looks at the value when the error is nil, so failure is \<open>None\<close>.
\<close>

definition digit :: "char \<Rightarrow> nat option" where
  "digit c = (if 48 \<le> (of_char c :: nat) \<and> (of_char c :: nat) \<le> 57
              then Some (of_char c - 48) else None)"

fun ParseUint :: "string \<Rightarrow> nat \<Rightarrow> nat option" where
  "ParseUint [] n = Some n"
| "ParseUint (c # cs) n =
     (case digit c of None \<Rightarrow> None | Some d \<Rightarrow> ParseUint cs (n * 10 + d))"

definition ParseInt :: "string \<Rightarrow> int64 option" where
  "ParseInt s =
     (case s of
        [] \<Rightarrow> None
      | c # cs \<Rightarrow>
          (let neg = (c = CHR ''-'');
               body = (if c = CHR ''+'' \<or> c = CHR ''-'' then cs else s)
           in if body = [] then None
              else (case ParseUint body 0 of
                      None \<Rightarrow> None
                    | Some un \<Rightarrow>
                        if \<not> neg \<and> 2 ^ 63 \<le> un then None
                        else if neg \<and> 2 ^ 63 < un then None
                        else Some (if neg then - of_nat un else of_nat un))))"

fun Join :: "string list \<Rightarrow> string \<Rightarrow> string" where
  "Join [] sep = []"
| "Join [x] sep = x"
| "Join (x # y # ys) sep = x @ sep @ Join (y # ys) sep"

section \<open>\<open>resolveOffset\<close>\<close>

text \<open>
  The result is the returned pair \<open>(int64, error)\<close> as a sum (the code returns 0 beside
  an error) together with the calls made on the client. In the look-back branch the
  client is used; a nil client panics there.
\<close>

definition resolveOffset ::
  "sarama \<Rightarrow> string \<Rightarrow> string list \<Rightarrow> string \<Rightarrow> int32 \<Rightarrow> sarama_Client option
     \<Rightarrow> (error + int64) res \<times> event list" where
  "resolveOffset k configOffset bs topic part cl =
     (if configOffset = ''oldest'' then (Done (Inr OffsetOldest), [])
      else if configOffset = ''newest'' then (Done (Inr OffsetNewest), [])
      else (case ParseInt configOffset of
              Some numericOffset \<Rightarrow>
                if - 2 \<le> sint numericOffset then (Done (Inr numericOffset), [])
                else (case cl of
                        None \<Rightarrow> (Panic, [])
                      | Some c \<Rightarrow>
                          (case GetOffset k c topic part OffsetOldest of
                             Inl err \<Rightarrow>
                               (Done (Inl err), [Call_GetOffset c topic part OffsetOldest])
                           | Inr oldest \<Rightarrow>
                               (case GetOffset k c topic part OffsetNewest of
                                  Inl err \<Rightarrow>
                                    (Done (Inl err),
                                     [Call_GetOffset c topic part OffsetOldest,
                                      Call_GetOffset c topic part OffsetNewest])
                                | Inr newest \<Rightarrow>
                                    (Done (Inr (if sint (newest + numericOffset) < sint oldest
                                                then oldest
                                                else newest + numericOffset)),
                                     [Call_GetOffset c topic part OffsetOldest,
                                      Call_GetOffset c topic part OffsetNewest]))))
            | None \<Rightarrow> (Done (Inl (Errorf ''Invalid value for consumer offset'' [])), [])))"

section \<open>The concrete client type\<close>

text \<open>
  \<open>func (c client) GetOffset(...)\<close> and \<open>func (c client) Close()\<close> call themselves
  and nothing else. The receiver is an empty struct. A call that does not return has
  the value \<open>None\<close>.
\<close>

partial_function (option) client_GetOffset ::
  "unit \<Rightarrow> string \<Rightarrow> int32 \<Rightarrow> int64 \<Rightarrow> (error + int64) option" where
  "client_GetOffset c topic part time = client_GetOffset c topic part time"

partial_function (option) client_Close :: "unit \<Rightarrow> (error option) option" where
  "client_Close c = client_Close c"

section \<open>Clusters and their teardown\<close>

text \<open>
  \<open>type cluster struct\<close>. The handles are interface values, nil until
  \<open>setupClusters\<close> stores what the library returned. The mutex \<open>pcL\<close> has no
  meaning for one thread and is left out.
\<close>

record cluster =
  brokers :: "string list"
  consumer :: "sarama_Consumer option"
  client :: "sarama_Client option"
  partitionConsumers :: "sarama_PartitionConsumer list"

text \<open>The loop of \<open>close\<close> over the partition consumers: every one is closed, an error is logged.\<close>

fun closePartitionConsumers ::
  "sarama \<Rightarrow> string list \<Rightarrow> sarama_PartitionConsumer list \<Rightarrow> event list" where
  "closePartitionConsumers k bs [] = []"
| "closePartitionConsumers k bs (pc # pcs) =
     Call_PartitionConsumer_Close pc #
     (case PartitionConsumer_Close k pc of
        Some err \<Rightarrow>
          [Printf ''Error while trying to close partition consumer for cluster with brokers %v. err=%v''
             [VStrs bs, VErr err]]
      | None \<Rightarrow> []) @
     closePartitionConsumers k bs pcs"

text \<open>
  \<open>func (c *cluster) close()\<close>. \<open>c.consumer.Close()\<close> and \<open>c.client.Close()\<close> are
  method calls on interface values: on a nil one the program panics at that line.
\<close>

definition close :: "sarama \<Rightarrow> cluster \<Rightarrow> unit res \<times> event list" where
  "close k c =
     (let ev1 =
            [Printf ''Trying to close cluster with brokers %v'' [VStrs (brokers c)],
             Printf ''Trying to close %v partition consumers for cluster with brokers %v''
               [VInt (int (length (partitionConsumers c))), VStrs (brokers c)]] @
            closePartitionConsumers k (brokers c) (partitionConsumers c) @
            [Printf ''Trying to close consumer for cluster with brokers %v'' [VStrs (brokers c)]]
      in case consumer c of
           None \<Rightarrow> (Panic, ev1)
         | Some co \<Rightarrow>
             (let ev2 =
                    [Call_Consumer_Close co,
                     (case Consumer_Close k co of
                        Some err \<Rightarrow>
                          Printf ''Error while trying to close consumer for cluster with brokers %v. err=%v''
                            [VStrs (brokers c), VErr err]
                      | None \<Rightarrow>
                          Printf ''Successfully closed consumer for cluster with brokers %v''
                            [VStrs (brokers c)]),
                     Printf ''Trying to close client for cluster with brokers %v'' [VStrs (brokers c)]]
              in case client c of
                   None \<Rightarrow> (Panic, ev1 @ ev2)
                 | Some cl \<Rightarrow>
                     (Done (),
                      ev1 @ ev2 @
                      [Call_Client_Close cl,
                       (case Client_Close k cl of
                          Some err \<Rightarrow>
                            Printf ''Error while trying to close client for cluster with brokers %v. err=%v''
                              [VStrs (brokers c), VErr err]
                        | None \<Rightarrow>
                            Printf ''Successfully closed client for cluster with brokers %v''
                              [VStrs (brokers c)]),
                       Printf ''Finished trying to close cluster with brokers %v''
                         [VStrs (brokers c)]])))"

text \<open>
  The registry \<open>map[string]*cluster\<close> is a list of entries with distinct keys, visited
  in the order of the list (Go leaves the order open). A panic stops the loop.
\<close>

fun closeClusters :: "sarama \<Rightarrow> (string \<times> cluster) list \<Rightarrow> unit res \<times> event list" where
  "closeClusters k [] = (Done (), [])"
| "closeClusters k (bc # rest) =
     (case close k (snd bc) of
        (Panic, ev) \<Rightarrow> (Panic, ev)
      | (Done u, ev) \<Rightarrow> (case closeClusters k rest of (r, ev') \<Rightarrow> (r, ev @ ev')))"

definition closeAll :: "sarama \<Rightarrow> (string \<times> cluster) list \<Rightarrow> unit res \<times> event list" where
  "closeAll k cs =
     (case closeClusters k cs of
        (Panic, ev) \<Rightarrow> (Panic, Printf ''Trying to close all clusters'' [] # ev)
      | (Done u, ev) \<Rightarrow>
          (Done (),
           Printf ''Trying to close all clusters'' [] # ev @
           [Printf ''Finished trying to close all clusters'' []]))"

section \<open>\<open>setupClusters\<close>\<close>

record iKafkaUtils =
  newClient :: "string list \<Rightarrow> error + sarama_Client"
  newConsumerFromClient :: "sarama_Client option \<Rightarrow> error + sarama_Consumer"

definition kafkaUtils :: "sarama \<Rightarrow> iKafkaUtils" where
  "kafkaUtils k =
     \<lparr>newClient = NewClient k, newConsumerFromClient = NewConsumerFromClient k\<rparr>"

text \<open>The handle a call leaves in its result variable: nil beside an error.\<close>

definition handle :: "error + 'a \<Rightarrow> 'a option" where
  "handle r = (case r of Inl err \<Rightarrow> None | Inr h \<Rightarrow> Some h)"

definition failure :: "string \<Rightarrow> error + 'a \<Rightarrow> error list" where
  "failure fmt r = (case r of Inl err \<Rightarrow> [Errorf fmt [VErr err]] | Inr h \<Rightarrow> [])"

text \<open>
  The body of one goroutine of \<open>setupClusters\<close>: it returns the cluster as it leaves it
  and the errors it appends. There is no return after a failed \<open>newClient\<close>:
  \<open>newConsumerFromClient\<close> is called with the nil client, and both results are stored.
\<close>

definition setupCluster :: "iKafkaUtils \<Rightarrow> cluster \<Rightarrow> (cluster \<times> error list) \<times> event list" where
  "setupCluster utils c =
     (let r1 = newClient utils (brokers c);
          r2 = newConsumerFromClient utils (handle r1)
      in ((c\<lparr>client := handle r1, consumer := handle r2\<rparr>,
           failure ''Error creating client. err=%v'' r1 @
           failure ''Error creating consumer. err=%v'' r2),
          [Printf ''Adding client+consumer for cluster with brokers %v'' [VStrs (brokers c)],
           Call_newClient (brokers c),
           Call_newConsumerFromClient (handle r1)]))"

text \<open>
  \<open>setupClusters\<close>: the goroutines, one per entry, run one after the other, in the
  order of the entries. They share only the error list.
\<close>

fun setupClusters ::
  "(string \<times> cluster) list \<Rightarrow> iKafkaUtils
     \<Rightarrow> ((string \<times> cluster) list \<times> error list) \<times> event list" where
  "setupClusters [] utils = (([], []), [])"
| "setupClusters (bc # rest) utils =
     (case setupCluster utils (snd bc) of
        ((c, errs), ev) \<Rightarrow>
          (case setupClusters rest utils of
             ((cs, errs'), ev') \<Rightarrow> (((fst bc, c) # cs, errs @ errs'), ev @ ev')))"

section \<open>\<open>setupPartitionConsumers\<close>\<close>

text \<open>
  Modelled from the spec: the configuration types \<open>Config\<close> and \<open>consumerConfig\<close>,
  declared outside this file. A ConsumerSpec is \<open>{brokers, topic, partition: int32 | ALL,
  offset: specifier}\<close>; the code reads ALL as \<open>-1\<close>. The fields carry the prefix
  \<open>cfg_\<close> to keep them apart from those of \<open>cluster\<close>.
\<close>

record consumerConfig =
  cfg_brokers :: "string list"
  cfg_topic :: string
  cfg_partition :: int32
  cfg_offset :: string

record Config =
  consumers :: "consumerConfig list"

text \<open>The first loop of \<open>setupPartitionConsumers\<close>: one empty cluster per joined key.\<close>

definition addCluster :: "consumerConfig \<Rightarrow> (string \<times> cluster) list \<Rightarrow> (string \<times> cluster) list" where
  "addCluster c cs =
     (let b = Join (cfg_brokers c) '',''
      in if map_of cs b = None
         then cs @ [(b, \<lparr>brokers = cfg_brokers c, consumer = None, client = None,
                          partitionConsumers = []\<rparr>)]
         else cs)"

definition newClusters :: "Config \<Rightarrow> (string \<times> cluster) list" where
  "newClusters conf = fold addCluster (consumers conf) []"

fun logErrors :: "error list \<Rightarrow> nat \<Rightarrow> event list" where
  "logErrors [] i = []"
| "logErrors (e # es) i = Printf ''Error #%v: %v'' [VInt (int i), VErr e] # logErrors es (Suc i)"

text \<open>The variables the goroutines of the second phase share.\<close>

record shared =
  clusters :: "(string \<times> cluster) list"
  errors :: "error list"
  partitionConsumerChans :: "chan list"

text \<open>\<open>cluster.partitionConsumers = append(cluster.partitionConsumers, partitionConsumer)\<close>
  on the cluster stored under the key.\<close>

fun register ::
  "string \<Rightarrow> sarama_PartitionConsumer \<Rightarrow> (string \<times> cluster) list \<Rightarrow> (string \<times> cluster) list" where
  "register b pc [] = []"
| "register b pc (bc # rest) =
     (if fst bc = b
      then (fst bc, (snd bc)\<lparr>partitionConsumers := partitionConsumers (snd bc) @ [pc]\<rparr>) # rest
      else bc # register b pc rest)"

text \<open>
  The loop \<open>for _, partition := range partitions\<close> of one goroutine. Each of its two
  error branches appends an error and executes \<open>return\<close>, which leaves the goroutine:
  the flag of the result says whether the loop ran to its end.
\<close>

fun consumePartitions ::
  "sarama \<Rightarrow> consumerConfig \<Rightarrow> sarama_Client option \<Rightarrow> sarama_Consumer option
     \<Rightarrow> int32 list \<Rightarrow> shared \<Rightarrow> (shared \<times> bool) res \<times> event list" where
  "consumePartitions k cc cl co [] st = (Done (st, True), [])"
| "consumePartitions k cc cl co (p # ps) st =
     (case resolveOffset k (cfg_offset cc) (cfg_brokers cc) (cfg_topic cc) p cl of
        (Panic, ev) \<Rightarrow> (Panic, ev)
      | (Done (Inl err), ev) \<Rightarrow>
          (Done (st\<lparr>errors := errors st @
                     [Errorf ''Could not resolve offset for %v, %v, %v. err=%v''
                        [VStrs (cfg_brokers cc), VStr (cfg_topic cc), VInt (sint p), VErr err]]\<rparr>,
                 False), ev)
      | (Done (Inr off), ev) \<Rightarrow>
          (case co of
             None \<Rightarrow> (Panic, ev)
           | Some c \<Rightarrow>
               (case ConsumePartition k c (cfg_topic cc) p off of
                  Inl err \<Rightarrow>
                    (Done (st\<lparr>errors := errors st @
                               [Errorf ''Failed to consume partition %v err=%v\<newline>''
                                  [VInt (sint p), VErr err]]\<rparr>,
                           False),
                     ev @ [Call_ConsumePartition c (cfg_topic cc) p off])
                | Inr pc \<Rightarrow>
                    (case consumePartitions k cc cl co ps
                            (st\<lparr>clusters :=
                                   register (Join (cfg_brokers cc) '','') pc (clusters st),
                                 partitionConsumerChans :=
                                   partitionConsumerChans st @ [Messages k pc]\<rparr>) of
                       (r, ev') \<Rightarrow>
                         (r, ev @ [Call_ConsumePartition c (cfg_topic cc) p off] @ ev')))))"

text \<open>
  The body of one goroutine of the second phase, for one configured consumer. A key
  missing from the registry would give a nil \<open>*cluster\<close>, whose field read panics.
\<close>

definition added :: "consumerConfig \<Rightarrow> int32 list \<Rightarrow> event" where
  "added cc ps =
     Printf ''Added %v partition consumer(s) for topic [%v]''
       [VInt (int (length ps)), VStr (cfg_topic cc)]"

definition consumeAll ::
  "sarama \<Rightarrow> consumerConfig \<Rightarrow> sarama_Client option \<Rightarrow> sarama_Consumer option
     \<Rightarrow> int32 list \<Rightarrow> shared \<Rightarrow> shared res \<times> event list" where
  "consumeAll k cc cl co ps st =
     (case consumePartitions k cc cl co ps st of
        (Panic, ev) \<Rightarrow> (Panic, ev)
      | (Done (st', finished), ev) \<Rightarrow>
          (Done st', if finished then ev @ [added cc ps] else ev))"

definition worker :: "sarama \<Rightarrow> consumerConfig \<Rightarrow> shared \<Rightarrow> shared res \<times> event list" where
  "worker k cc st =
     (case map_of (clusters st) (Join (cfg_brokers cc) '','') of
        None \<Rightarrow> (Panic, [])
      | Some c \<Rightarrow>
          if cfg_partition cc = - 1
          then (case consumer c of
                  None \<Rightarrow> (Panic, [])
                | Some co \<Rightarrow>
                    (case Partitions k co (cfg_topic cc) of
                       Inl err \<Rightarrow>
                         (Done (st\<lparr>errors := errors st @
                                    [Errorf ''Error fetching partitions for topic. err=%v''
                                       [VErr err]]\<rparr>),
                          [Call_Partitions co (cfg_topic cc)])
                     | Inr ps \<Rightarrow>
                         (case consumeAll k cc (client c) (consumer c) ps st of
                            (r, ev) \<Rightarrow> (r, Call_Partitions co (cfg_topic cc) # ev))))
          else consumeAll k cc (client c) (consumer c) [cfg_partition cc] st)"

text \<open>The goroutines of the second phase, one per configured consumer, one after the other.\<close>

fun workers :: "sarama \<Rightarrow> consumerConfig list \<Rightarrow> shared \<Rightarrow> shared res \<times> event list" where
  "workers k [] st = (Done st, [])"
| "workers k (cc # ccs) st =
     (case worker k cc st of
        (Panic, ev) \<Rightarrow> (Panic, ev)
      | (Done st', ev) \<Rightarrow> (case workers k ccs st' of (r, ev') \<Rightarrow> (r, ev @ ev')))"

text \<open>
  The block run when \<open>len(errors) > 0\<close>, after either phase: log, close all, and
  \<open>return nil, nil, false\<close>. A nil slice and a nil map are \<open>None\<close>.
\<close>

type_synonym outcome = "chan list option \<times> (string \<times> cluster) list option \<times> bool"

definition giveUp ::
  "sarama \<Rightarrow> string \<Rightarrow> error list \<Rightarrow> (string \<times> cluster) list \<Rightarrow> outcome res \<times> event list" where
  "giveUp k headline errs cs =
     (case closeAll k cs of
        (Panic, ev) \<Rightarrow>
          (Panic, Printf headline [VInt (int (length errs))] # logErrors errs 0 @ ev)
      | (Done u, ev) \<Rightarrow>
          (Done (None, None, False),
           Printf headline [VInt (int (length errs))] # logErrors errs 0 @ ev))"

definition setupPartitionConsumers :: "sarama \<Rightarrow> Config \<Rightarrow> outcome res \<times> event list" where
  "setupPartitionConsumers k conf =
     (case setupClusters (newClusters conf) (kafkaUtils k) of
        ((cs, errs), ev1) \<Rightarrow>
          if 0 < length errs
          then (case giveUp k ''%v error(s) while setting up consumers:'' errs cs of
                  (r, ev2) \<Rightarrow> (r, ev1 @ ev2))
          else (case workers k (consumers conf)
                       \<lparr>clusters = cs, errors = errs, partitionConsumerChans = []\<rparr> of
                  (Panic, ev2) \<Rightarrow> (Panic, ev1 @ ev2)
                | (Done st, ev2) \<Rightarrow>
                    if 0 < length (errors st)
                    then (case giveUp k ''%v error(s) while setting up partition consumers:''
                                 (errors st) (clusters st) of
                            (r, ev3) \<Rightarrow> (r, ev1 @ ev2 @ ev3))
                    else (Done (Some (partitionConsumerChans st), Some (clusters st), True),
                          ev1 @ ev2 @
                          [Printf ''Successfully finished setting up partition consumers. Ready to consume, bro!''
                             []])))"

section \<open>Notions used in the statements\<close>

text \<open>The key under which the cluster of a configured consumer is stored.\<close>

definition key :: "consumerConfig \<Rightarrow> string" where
  "key c = Join (cfg_brokers c) '',''"

text \<open>A cluster as the first loop creates it: no handle, no partition consumer.\<close>

definition fresh :: "cluster \<Rightarrow> bool" where
  "fresh cl = (consumer cl = None \<and> client cl = None \<and> partitionConsumers cl = [])"

text \<open>A cluster whose two handles are set.\<close>

definition live :: "cluster \<Rightarrow> bool" where
  "live c = (consumer c \<noteq> None \<and> client c \<noteq> None)"

text \<open>The keys and the handles of a registry, without the partition consumers.\<close>

definition handles :: "(string \<times> cluster) list \<Rightarrow> (string \<times> sarama_Consumer option \<times> sarama_Client option) list" where
  "handles cs = map (\<lambda>bc. (fst bc, consumer (snd bc), client (snd bc))) cs"

text \<open>The cluster of a configured consumer is in the registry, with both handles.\<close>

definition ready :: "(string \<times> cluster) list \<Rightarrow> consumerConfig \<Rightarrow> bool" where
  "ready cs cc =
     (case map_of (handles cs) (Join (cfg_brokers cc) '','') of
        Some (Some co, Some cl) \<Rightarrow> True
      | _ \<Rightarrow> False)"

text \<open>The \<open>Close\<close> calls and the \<open>ConsumePartition\<close> calls among the events.\<close>

definition isClose :: "event \<Rightarrow> bool" where
  "isClose e =
     (case e of
        Call_PartitionConsumer_Close pc \<Rightarrow> True
      | Call_Consumer_Close co \<Rightarrow> True
      | Call_Client_Close cl \<Rightarrow> True
      | _ \<Rightarrow> False)"

definition isConsume :: "event \<Rightarrow> bool" where
  "isConsume e = (case e of Call_ConsumePartition co topic part off \<Rightarrow> True | _ \<Rightarrow> False)"

text \<open>The \<open>Close\<close> calls a cluster is due: its partition consumers, its consumer, its client.\<close>

definition closes :: "cluster \<Rightarrow> event list" where
  "closes c =
     map Call_PartitionConsumer_Close (partitionConsumers c) @
     (case consumer c of None \<Rightarrow> [] | Some co \<Rightarrow> [Call_Consumer_Close co]) @
     (case client c of None \<Rightarrow> [] | Some cl \<Rightarrow> [Call_Client_Close cl])"

section \<open>Worlds to run the code in\<close>

text \<open>
  A broker whose partitions hold the offsets 10 (oldest) to 100 (newest), where every
  call succeeds.
\<close>

definition broker_100_10 :: sarama where
  "broker_100_10 =
     \<lparr>NewClient = (\<lambda>bs. Inr (Client 0)),
      NewConsumerFromClient = (\<lambda>c. Inr (Consumer 0)),
      GetOffset = (\<lambda>c topic part time. if time = OffsetOldest then Inr 10 else Inr 100),
      Client_Close = (\<lambda>c. None),
      Partitions = (\<lambda>c topic. Inr [0]),
      ConsumePartition = (\<lambda>c topic part off. Inr (PartitionConsumer (unat part))),
      Consumer_Close = (\<lambda>c. None),
      PartitionConsumer_Close = (\<lambda>pc. None),
      Messages = (\<lambda>pc. case pc of PartitionConsumer i \<Rightarrow> Chan i)\<rparr>"

text \<open>One configured consumer on one partition.\<close>

definition one :: Config where
  "one = \<lparr>consumers =
            [\<lparr>cfg_brokers = [''b:9092''], cfg_topic = ''t'', cfg_partition = 0,
              cfg_offset = ''oldest''\<rparr>]\<rparr>"

text \<open>
  A world where the client opens and the consumer cannot be created: the library
  returns a nil consumer and an error.
\<close>

definition no_consumer :: sarama where
  "no_consumer =
     broker_100_10\<lparr>NewConsumerFromClient :=
       (\<lambda>c. Inl (LibError ''kafka: tried to use a client that was closed''))\<rparr>"

text \<open>The cluster \<open>setupClusters\<close> leaves in the registry in such a world.\<close>

definition half_open :: cluster where
  "half_open =
     \<lparr>brokers = [''b:9092''], consumer = None, client = Some (Client 0),
      partitionConsumers = []\<rparr>"

text \<open>
  A topic of three partitions where the offsets of partition 1 cannot be read, a
  consumer configured for all its partitions with a look-back of 5 messages, and the
  shared variables as the first phase leaves them for this configuration.
\<close>

definition partition_1_down :: sarama where
  "partition_1_down =
     broker_100_10\<lparr>
       Partitions := (\<lambda>c topic. Inr [0, 1, 2]),
       GetOffset := (\<lambda>c topic part time.
          if part = 1 then Inl (LibError ''kafka: leader not available'')
          else if time = OffsetOldest then Inr 10 else Inr 100)\<rparr>"

definition lookback :: consumerConfig where
  "lookback = \<lparr>cfg_brokers = [''b:9092''], cfg_topic = ''t'', cfg_partition = - 1,
               cfg_offset = ''-5''\<rparr>"

definition opened :: shared where
  "opened =
     \<lparr>clusters = [(''b:9092'', \<lparr>brokers = [''b:9092''], consumer = Some (Consumer 0),
                                 client = Some (Client 0), partitionConsumers = []\<rparr>)],
      errors = [], partitionConsumerChans = []\<rparr>"

text \<open>Three configured consumers: two with the same broker list, one with the list reversed.\<close>

definition ab_t :: consumerConfig where
  "ab_t = \<lparr>cfg_brokers = [''a:9092'', ''b:9092''], cfg_topic = ''t'', cfg_partition = 0,
           cfg_offset = ''oldest''\<rparr>"

definition ba_t :: consumerConfig where
  "ba_t = \<lparr>cfg_brokers = [''b:9092'', ''a:9092''], cfg_topic = ''t'', cfg_partition = 0,
           cfg_offset = ''oldest''\<rparr>"

definition ab_u :: consumerConfig where
  "ab_u = \<lparr>cfg_brokers = [''a:9092'', ''b:9092''], cfg_topic = ''u'', cfg_partition = 1,
           cfg_offset = ''newest''\<rparr>"

definition permuted :: Config where
  "permuted = \<lparr>consumers = [ab_t, ba_t, ab_u]\<rparr>"

section \<open>Offset resolution\<close>

lemma ParseInt_oldest: "ParseInt ''oldest'' = None"
  by (simp add: ParseInt_def digit_def)

lemma ParseInt_newest: "ParseInt ''newest'' = None"
  by (simp add: ParseInt_def digit_def)

text \<open>
  Claim C5. The specifiers \<open>oldest\<close> and \<open>newest\<close> give the two sentinel offsets, and
  an integer specifier \<open>n \<ge> -2\<close> gives \<open>n\<close> itself; in all three cases no call is made
  on the client (the list of calls is empty, and the client may even be nil).
\<close>

theorem resolveOffset_without_query:
  "resolveOffset k ''oldest'' bs topic part cl = (Done (Inr OffsetOldest), []) \<and>
   resolveOffset k ''newest'' bs topic part cl = (Done (Inr OffsetNewest), []) \<and>
   (ParseInt s = Some n \<and> - 2 \<le> sint n \<longrightarrow>
      resolveOffset k s bs topic part cl = (Done (Inr n), []))"
proof -
  have "resolveOffset k s bs topic part cl = (Done (Inr n), [])"
    if "ParseInt s = Some n" "- 2 \<le> sint n"
  proof -
    from that(1) have "s \<noteq> ''oldest''" "s \<noteq> ''newest''"
      using ParseInt_oldest ParseInt_newest by auto
    with that show ?thesis
      by (simp add: resolveOffset_def)
  qed
  then show ?thesis
    by (simp add: resolveOffset_def)
qed

theorem resolveOffset_without_query_witness:
  "ParseInt ''-1'' = Some (- 1) \<and> ParseInt ''-2'' = Some (- 2) \<and> ParseInt ''7'' = Some 7 \<and>
   resolveOffset broker_100_10 ''-1'' [''b:9092''] ''t'' 0 None = (Done (Inr (- 1)), []) \<and>
   resolveOffset broker_100_10 ''-2'' [''b:9092''] ''t'' 0 None = (Done (Inr (- 2)), []) \<and>
   resolveOffset broker_100_10 ''7'' [''b:9092''] ''t'' 0 None = (Done (Inr 7), [])"
proof -
  have p1: "ParseInt ''-1'' = Some (- 1)" and p2: "ParseInt ''-2'' = Some (- 2)"
    and p7: "ParseInt ''7'' = Some 7"
    by (simp_all add: ParseInt_def digit_def)
  have s1: "- 2 \<le> sint (- 1 :: int64)" and s2: "- 2 \<le> sint (- 2 :: int64)"
    and s7: "- 2 \<le> sint (7 :: int64)"
    by simp_all
  show ?thesis
    using resolveOffset_without_query [of broker_100_10 "[''b:9092'']" "''t''" 0 None "''-1''" "- 1"]
      resolveOffset_without_query [of broker_100_10 "[''b:9092'']" "''t''" 0 None "''-2''" "- 2"]
      resolveOffset_without_query [of broker_100_10 "[''b:9092'']" "''t''" 0 None "''7''" 7]
      p1 p2 p7 s1 s2 s7
    by simp
qed

text \<open>
  Claim C6. A specifier that is neither \<open>oldest\<close> nor \<open>newest\<close> and that
  \<open>strconv.ParseInt\<close> rejects gives the error "Invalid value for consumer offset", and
  no call is made on the client.
\<close>

theorem resolveOffset_invalid:
  "s \<noteq> ''oldest'' \<Longrightarrow> s \<noteq> ''newest'' \<Longrightarrow> ParseInt s = None \<Longrightarrow>
   resolveOffset k s bs topic part cl =
     (Done (Inl (Errorf ''Invalid value for consumer offset'' [])), [])"
  by (simp add: resolveOffset_def)

theorem resolveOffset_invalid_witness:
  "''abc'' \<noteq> ''oldest'' \<and> ''abc'' \<noteq> ''newest'' \<and> ParseInt ''abc'' = None \<and>
   resolveOffset broker_100_10 ''abc'' [''b:9092''] ''t'' 0 (Some (Client 0)) =
     (Done (Inl (Errorf ''Invalid value for consumer offset'' [])), [])"
proof -
  have p: "ParseInt ''abc'' = None"
    by (simp add: ParseInt_def digit_def)
  have a: "''abc'' \<noteq> ''oldest''" and b: "''abc'' \<noteq> ''newest''"
    by simp_all
  show ?thesis
    using resolveOffset_invalid [OF a b p, of broker_100_10 "[''b:9092'']" "''t''" 0 "Some (Client 0)"] p
    by simp
qed

text \<open>A non-negative newest offset plus a negative look-back does not wrap around.\<close>

lemma sint_add_no_wrap:
  fixes N n :: int64
  assumes "0 \<le> sint N" "sint n < 0"
  shows "sint (N + n) = sint N + sint n"
proof -
  have "sint N < 2 ^ 63" using sint_lt [of N] by simp
  moreover have "- (2 ^ 63) \<le> sint n" using sint_ge [of n] by simp
  ultimately have "- (2 ^ 63) \<le> sint N + sint n" "sint N + sint n < 2 ^ 63"
    using assms by linarith+
  then show ?thesis
    by (simp add: sint_word_ariths signed_take_bit_int_eq_self)
qed

text \<open>
  Claim C2. For an integer specifier \<open>n < -2\<close> and a live client, \<open>resolveOffset\<close>
  asks the client for the oldest offset and then for the newest one. A failed query
  is returned as the error of the call (after a failed first query the second is not
  made). When both succeed with \<open>O\<close> and \<open>N\<close> the result is \<open>O\<close> if \<open>N + n < O\<close> and
  \<open>N + n\<close> otherwise, in Go's \<open>int64\<close> arithmetic; for a newest offset \<open>N \<ge> 0\<close>, as
  brokers report, that is \<open>max(O, N + n)\<close> over the integers.
\<close>

theorem resolveOffset_lookback:
  assumes "ParseInt s = Some n" and "sint n < - 2"
  shows
    "(GetOffset k c topic part OffsetOldest = Inl err \<longrightarrow>
        resolveOffset k s bs topic part (Some c) =
          (Done (Inl err), [Call_GetOffset c topic part OffsetOldest])) \<and>
     (GetOffset k c topic part OffsetOldest = Inr oldest \<and>
      GetOffset k c topic part OffsetNewest = Inl err \<longrightarrow>
        resolveOffset k s bs topic part (Some c) =
          (Done (Inl err),
           [Call_GetOffset c topic part OffsetOldest, Call_GetOffset c topic part OffsetNewest])) \<and>
     (GetOffset k c topic part OffsetOldest = Inr oldest \<and>
      GetOffset k c topic part OffsetNewest = Inr newest \<longrightarrow>
        resolveOffset k s bs topic part (Some c) =
          (Done (Inr (if sint (newest + n) < sint oldest then oldest else newest + n)),
           [Call_GetOffset c topic part OffsetOldest, Call_GetOffset c topic part OffsetNewest]) \<and>
        (0 \<le> sint newest \<longrightarrow>
           sint (if sint (newest + n) < sint oldest then oldest else newest + n) =
             max (sint oldest) (sint newest + sint n)))"
proof -
  from assms(1) have ne: "s \<noteq> ''oldest''" "s \<noteq> ''newest''"
    using ParseInt_oldest ParseInt_newest by auto
  from assms(2) have lt: "\<not> - 2 \<le> sint n" "sint n < 0"
    by simp_all
  have wrap: "sint (newest + n) = sint newest + sint n" if "0 \<le> sint newest"
    using that lt(2) by (rule sint_add_no_wrap)
  show ?thesis
    using ne lt(1) assms(1) wrap by (simp add: resolveOffset_def)
qed

theorem resolveOffset_lookback_witness:
  "ParseInt ''-50'' = Some (- 50) \<and> sint (- 50 :: int64) < - 2 \<and>
   ParseInt ''-95'' = Some (- 95) \<and> sint (- 95 :: int64) < - 2 \<and>
   GetOffset broker_100_10 (Client 0) ''t'' 0 OffsetOldest = Inr 10 \<and>
   GetOffset broker_100_10 (Client 0) ''t'' 0 OffsetNewest = Inr 100 \<and>
   fst (resolveOffset broker_100_10 ''-50'' [''b:9092''] ''t'' 0 (Some (Client 0))) = Done (Inr 50) \<and>
   fst (resolveOffset broker_100_10 ''-95'' [''b:9092''] ''t'' 0 (Some (Client 0))) = Done (Inr 10)"
proof -
  have p50: "ParseInt ''-50'' = Some (- 50)" and p95: "ParseInt ''-95'' = Some (- 95)"
    by (simp_all add: ParseInt_def digit_def)
  have s50: "sint (- 50 :: int64) < - 2" and s95: "sint (- 95 :: int64) < - 2"
    by simp_all
  have o: "GetOffset broker_100_10 (Client 0) ''t'' 0 OffsetOldest = Inr 10"
    and n: "GetOffset broker_100_10 (Client 0) ''t'' 0 OffsetNewest = Inr 100"
    by (simp_all add: broker_100_10_def OffsetOldest_def OffsetNewest_def)
  show ?thesis
    using resolveOffset_lookback [OF p50 s50, of broker_100_10 "Client 0" "''t''" 0 "LibError []" "[''b:9092'']" 10 100]
      resolveOffset_lookback [OF p95 s95, of broker_100_10 "Client 0" "''t''" 0 "LibError []" "[''b:9092'']" 10 100]
      p50 p95 s50 s95 o n
    by simp
qed

section \<open>The concrete client type does not return\<close>

text \<open>
  Claim C10. A call of \<open>GetOffset\<close> or of \<open>Close\<close> on the concrete type \<open>client\<close> never
  returns, whatever its arguments: each body is the same call again.
\<close>

theorem client_methods_never_return:
  "client_GetOffset c topic part time = None \<and> client_Close c = None"
proof
  show "client_GetOffset c topic part time = None"
  proof (cases "client_GetOffset c topic part time")
    case (Some y)
    have False
      by (rule client_GetOffset.raw_induct [where P = "\<lambda>_ _ _ _ _. False", OF _ Some]) blast
    then show ?thesis ..
  qed simp
  show "client_Close c = None"
  proof (cases "client_Close c")
    case (Some y)
    have False
      by (rule client_Close.raw_induct [where P = "\<lambda>_ _. False", OF _ Some]) blast
    then show ?thesis ..
  qed simp
qed

section \<open>The registry\<close>

lemma addCluster_keys:
  "map fst (addCluster c cs) =
     (if key c \<in> set (map fst cs) then map fst cs else map fst cs @ [key c])"
  by (auto simp: addCluster_def key_def Let_def map_of_eq_None_iff)

lemma addCluster_distinct:
  "distinct (map fst cs) \<Longrightarrow> distinct (map fst (addCluster c cs))"
  by (simp add: addCluster_keys)

lemma fold_addCluster_distinct:
  "distinct (map fst cs) \<Longrightarrow> distinct (map fst (fold addCluster ccs cs))"
  by (induction ccs arbitrary: cs) (simp_all add: addCluster_distinct)

lemma fold_addCluster_keys:
  "set (map fst (fold addCluster ccs cs)) = set (map fst cs) \<union> key ` set ccs"
proof (induction ccs arbitrary: cs)
  case Nil
  then show ?case by simp
next
  case (Cons c ccs)
  have "set (map fst (addCluster c cs)) = insert (key c) (set (map fst cs))"
    by (auto simp: addCluster_keys)
  with Cons show ?case by auto
qed

lemma addCluster_map_of:
  "map_of cs b = Some cl \<Longrightarrow> map_of (addCluster c cs) b = Some cl"
  by (simp add: addCluster_def Let_def map_of_append)

lemma addCluster_inv:
  assumes "\<And>b cl. map_of cs b = Some cl \<Longrightarrow> Join (brokers cl) '','' = b \<and> fresh cl"
    and "map_of (addCluster c cs) b = Some cl"
  shows "Join (brokers cl) '','' = b \<and> fresh cl"
proof (cases "map_of cs b")
  case None
  with assms(2) show ?thesis
    by (auto simp: addCluster_def Let_def map_of_append fresh_def split: if_splits)
next
  case (Some cl')
  then have "map_of (addCluster c cs) b = Some cl'" by (rule addCluster_map_of)
  with assms Some show ?thesis by simp
qed

lemma fold_addCluster_inv:
  assumes "\<And>b cl. map_of cs b = Some cl \<Longrightarrow> Join (brokers cl) '','' = b \<and> fresh cl"
    and "map_of (fold addCluster ccs cs) b = Some cl"
  shows "Join (brokers cl) '','' = b \<and> fresh cl"
  using assms
proof (induction ccs arbitrary: cs)
  case Nil
  then show ?case by simp
next
  case (Cons c ccs)
  show ?case
  proof (rule Cons.IH)
    show "map_of (fold addCluster ccs (addCluster c cs)) b = Some cl"
      using Cons.prems(2) by simp
    show "Join (brokers cl') '','' = b' \<and> fresh cl'"
      if "map_of (addCluster c cs) b' = Some cl'" for b' cl'
      using Cons.prems(1) that by (rule addCluster_inv)
  qed
qed

lemma newClusters_lookup:
  assumes "c \<in> set (consumers conf)"
  shows "\<exists>cl. map_of (newClusters conf) (key c) = Some cl \<and>
              Join (brokers cl) '','' = key c \<and> fresh cl"
proof -
  have "key c \<in> set (map fst (newClusters conf))"
    unfolding newClusters_def fold_addCluster_keys using assms by simp
  then obtain cl where cl: "map_of (newClusters conf) (key c) = Some cl"
    by (metis map_of_eq_None_iff not_Some_eq set_map)
  then have "Join (brokers cl) '','' = key c \<and> fresh cl"
    unfolding newClusters_def by (rule fold_addCluster_inv [rotated]) simp
  with cl show ?thesis by blast
qed

text \<open>
  Claim C7. The registry built by the first loop of \<open>setupPartitionConsumers\<close> holds
  exactly one cluster for every distinct comma-joined broker list of the configuration:
  its keys are distinct, they are the joined lists of the configured consumers, and there
  are as many clusters as distinct keys. Two configured consumers with the same broker
  list, in the same order, find the same cluster there, a fresh one whose broker list
  joins to their key.
\<close>

theorem registry_one_cluster_per_key:
  "distinct (map fst (newClusters conf)) \<and>
   set (map fst (newClusters conf)) = key ` set (consumers conf) \<and>
   length (newClusters conf) = card (key ` set (consumers conf)) \<and>
   (\<forall>c \<in> set (consumers conf). \<forall>c' \<in> set (consumers conf).
      cfg_brokers c = cfg_brokers c' \<longrightarrow>
      (\<exists>cl. map_of (newClusters conf) (key c) = Some cl \<and>
            map_of (newClusters conf) (key c') = Some cl \<and>
            Join (brokers cl) '','' = key c \<and> fresh cl))"
proof -
  have d: "distinct (map fst (newClusters conf))"
    unfolding newClusters_def by (rule fold_addCluster_distinct) simp
  have s: "set (map fst (newClusters conf)) = key ` set (consumers conf)"
    unfolding newClusters_def fold_addCluster_keys by simp
  have "length (newClusters conf) = card (set (map fst (newClusters conf)))"
    using d distinct_card [of "map fst (newClusters conf)"] by simp
  then have l: "length (newClusters conf) = card (key ` set (consumers conf))"
    using s by simp
  have "\<exists>cl. map_of (newClusters conf) (key c) = Some cl \<and>
            map_of (newClusters conf) (key c') = Some cl \<and>
            Join (brokers cl) '','' = key c \<and> fresh cl"
    if "c \<in> set (consumers conf)" "cfg_brokers c = cfg_brokers c'" for c c'
  proof -
    from that(2) have "key c' = key c" by (simp add: key_def)
    with newClusters_lookup [OF that(1)] show ?thesis by auto
  qed
  with d s l show ?thesis by blast
qed

text \<open>
  In the configuration \<open>permuted\<close> the two consumers on \<open>a,b\<close> share a cluster, and the
  consumer on the same addresses in the order \<open>b,a\<close> has another one.
\<close>

lemma newClusters_permuted:
  "newClusters permuted =
     [(''a:9092,b:9092'', \<lparr>brokers = [''a:9092'', ''b:9092''], consumer = None, client = None, partitionConsumers = []\<rparr>),
      (''b:9092,a:9092'', \<lparr>brokers = [''b:9092'', ''a:9092''], consumer = None, client = None, partitionConsumers = []\<rparr>)]"
  by (simp add: newClusters_def permuted_def addCluster_def ab_t_def ba_t_def ab_u_def)

theorem registry_one_cluster_per_key_witness:
  "ab_t \<in> set (consumers permuted) \<and> ab_u \<in> set (consumers permuted) \<and>
   cfg_brokers ab_t = cfg_brokers ab_u \<and>
   (\<exists>cl. map_of (newClusters permuted) (key ab_t) = Some cl \<and>
         map_of (newClusters permuted) (key ab_u) = Some cl) \<and>
   set (cfg_brokers ba_t) = set (cfg_brokers ab_t) \<and>
   map_of (newClusters permuted) (key ba_t) \<noteq> map_of (newClusters permuted) (key ab_t) \<and>
   length (newClusters permuted) = 2"
proof -
  have m: "ab_t \<in> set (consumers permuted)" "ab_u \<in> set (consumers permuted)"
    by (simp_all add: permuted_def)
  have b: "cfg_brokers ab_t = cfg_brokers ab_u"
    by (simp add: ab_t_def ab_u_def)
  have p: "set (cfg_brokers ba_t) = set (cfg_brokers ab_t)"
    by (auto simp: ab_t_def ba_t_def)
  have d: "map_of (newClusters permuted) (key ba_t) \<noteq> map_of (newClusters permuted) (key ab_t)"
    by (simp add: newClusters_permuted key_def ab_t_def ba_t_def)
  have l: "length (newClusters permuted) = 2"
    by (simp add: newClusters_permuted)
  from registry_one_cluster_per_key [of permuted] m b
  have "\<exists>cl. map_of (newClusters permuted) (key ab_t) = Some cl \<and>
         map_of (newClusters permuted) (key ab_u) = Some cl"
    by blast
  with m b p d l show ?thesis by blast
qed

section \<open>Teardown\<close>

lemma closePartitionConsumers_calls:
  "filter isClose (closePartitionConsumers k bs pcs) = map Call_PartitionConsumer_Close pcs"
  by (induction pcs) (simp_all add: isClose_def split: option.splits)

lemma close_live:
  assumes "consumer c = Some co" and "client c = Some cl"
  shows "fst (close k c) = Done () \<and>
         filter isClose (snd (close k c)) =
           map Call_PartitionConsumer_Close (partitionConsumers c) @
           [Call_Consumer_Close co, Call_Client_Close cl]"
  using assms
  by (simp add: close_def Let_def closePartitionConsumers_calls isClose_def split: option.splits)

lemma close_nil_consumer:
  assumes "consumer c = None"
  shows "fst (close k c) = Panic \<and>
         filter isClose (snd (close k c)) =
           map Call_PartitionConsumer_Close (partitionConsumers c)"
  using assms
  by (simp add: close_def Let_def closePartitionConsumers_calls isClose_def)

lemma close_Panic_iff:
  "fst (close k c) = Panic \<longleftrightarrow> consumer c = None \<or> client c = None"
  by (simp add: close_def Let_def split: option.splits)

lemma closeClusters_Panic_iff:
  "fst (closeClusters k cs) = Panic \<longleftrightarrow> \<not> list_all (\<lambda>bc. live (snd bc)) cs"
proof (induction cs)
  case Nil
  then show ?case by simp
next
  case (Cons bc cs)
  have "fst (closeClusters k (bc # cs)) = Panic \<longleftrightarrow>
          fst (close k (snd bc)) = Panic \<or> fst (closeClusters k cs) = Panic"
    by (auto split: prod.splits res.splits)
  with Cons show ?case
    by (auto simp: close_Panic_iff live_def)
qed

lemma closeAll_Panic_iff:
  "fst (closeAll k cs) = Panic \<longleftrightarrow> \<not> list_all (\<lambda>bc. live (snd bc)) cs"
  using closeClusters_Panic_iff [of k cs]
  by (auto simp: closeAll_def split: prod.splits res.splits)

lemma giveUp_fst:
  "fst (giveUp k h errs cs) =
     (if list_all (\<lambda>bc. live (snd bc)) cs then Done (None, None, False) else Panic)"
  using closeAll_Panic_iff [of k cs]
  by (auto simp: giveUp_def split: prod.splits res.splits)

text \<open>
  On a cluster with both handles \<open>close\<close> returns, and its \<open>Close\<close> calls are those
  of all partition consumers, then the consumer, then the client, whatever each of the
  calls returns. \<open>closeAll\<close> does so for every cluster of a registry of such clusters.
\<close>

lemma close_best_effort:
  assumes "live c"
  shows "fst (close k c) = Done () \<and> filter isClose (snd (close k c)) = closes c"
proof -
  from assms obtain co cl where "consumer c = Some co" "client c = Some cl"
    by (auto simp: live_def)
  then show ?thesis
    using close_live [of c co cl k] by (simp add: closes_def)
qed

lemma closeClusters_best_effort:
  "list_all (\<lambda>bc. live (snd bc)) cs \<Longrightarrow>
   fst (closeClusters k cs) = Done () \<and>
   filter isClose (snd (closeClusters k cs)) = concat (map (\<lambda>bc. closes (snd bc)) cs)"
proof (induction cs)
  case Nil
  then show ?case by simp
next
  case (Cons bc cs)
  then have "live (snd bc)" by simp
  from close_best_effort [OF this, of k] Cons show ?case
    by (auto split: prod.splits res.splits)
qed

lemma closeAll_best_effort:
  "list_all (\<lambda>bc. live (snd bc)) cs \<Longrightarrow>
   fst (closeAll k cs) = Done () \<and>
   filter isClose (snd (closeAll k cs)) = concat (map (\<lambda>bc. closes (snd bc)) cs)"
  using closeClusters_best_effort [of cs k]
  by (auto simp: closeAll_def isClose_def split: prod.splits res.splits)

text \<open>The first phase in the worlds \<open>no_consumer\<close> and \<open>broker_100_10\<close>.\<close>

lemma one_registry:
  "newClusters one =
     [(''b:9092'', \<lparr>brokers = [''b:9092''], consumer = None, client = None, partitionConsumers = []\<rparr>)]"
  by (simp add: newClusters_def one_def addCluster_def)

lemma no_consumer_clusters:
  "setupClusters (newClusters one) (kafkaUtils no_consumer) =
     (([(''b:9092'', \<lparr>brokers = [''b:9092''], consumer = None, client = Some (Client 0),
                       partitionConsumers = []\<rparr>)],
       [Errorf ''Error creating consumer. err=%v''
          [VErr (LibError ''kafka: tried to use a client that was closed'')]]),
      [Printf ''Adding client+consumer for cluster with brokers %v'' [VStrs [''b:9092'']],
       Call_newClient [''b:9092''],
       Call_newConsumerFromClient (Some (Client 0))])"
  by (simp add: one_registry setupCluster_def kafkaUtils_def no_consumer_def broker_100_10_def
      handle_def failure_def)

lemma one_clusters:
  "setupClusters (newClusters one) (kafkaUtils broker_100_10) =
     (([(''b:9092'', \<lparr>brokers = [''b:9092''], consumer = Some (Consumer 0),
                       client = Some (Client 0), partitionConsumers = []\<rparr>)], []),
      [Printf ''Adding client+consumer for cluster with brokers %v'' [VStrs [''b:9092'']],
       Call_newClient [''b:9092''],
       Call_newConsumerFromClient (Some (Client 0))])"
  by (simp add: one_registry setupCluster_def kafkaUtils_def broker_100_10_def
      handle_def failure_def)

text \<open>
  Claim C8 says that \<open>close\<close> attempts to close the partition consumers, then the
  consumer, then the client of every cluster, and that no failure on the way prevents the
  remaining attempts. At the cluster \<open>half_open\<close>, which \<open>setupClusters\<close> leaves with
  a client and no consumer, \<open>close\<close> panics on the call of \<open>Close\<close> on the nil consumer:
  the client is never closed.
\<close>

theorem close_skips_client:
  "close no_consumer half_open =
     (Panic,
      [Printf ''Trying to close cluster with brokers %v'' [VStrs [''b:9092'']],
       Printf ''Trying to close %v partition consumers for cluster with brokers %v''
         [VInt 0, VStrs [''b:9092'']],
       Printf ''Trying to close consumer for cluster with brokers %v'' [VStrs [''b:9092'']]]) \<and>
   map snd (fst (fst (setupClusters (newClusters one) (kafkaUtils no_consumer)))) = [half_open]"
  by (simp add: close_def half_open_def no_consumer_clusters)

section \<open>The first phase\<close>

lemma setupClusters_clusters:
  "fst (fst (setupClusters cs utils)) =
     map (\<lambda>bc. (fst bc, fst (fst (setupCluster utils (snd bc))))) cs"
  by (induction cs) (auto split: prod.splits)

lemma setupClusters_errors:
  "snd (fst (setupClusters cs utils)) =
     concat (map (\<lambda>bc. snd (fst (setupCluster utils (snd bc)))) cs)"
  by (induction cs) (auto split: prod.splits)

lemma setupCluster_live:
  "live (fst (fst (setupCluster utils c))) \<longleftrightarrow> snd (fst (setupCluster utils c)) = []"
  by (auto simp: setupCluster_def Let_def live_def handle_def failure_def split: sum.splits)

lemma setupClusters_live:
  "list_all (\<lambda>bc. live (snd bc)) (fst (fst (setupClusters cs utils))) \<longleftrightarrow>
   snd (fst (setupClusters cs utils)) = []"
  by (simp add: setupClusters_clusters setupClusters_errors list_all_iff setupCluster_live)

lemma setupClusters_map_of:
  "map_of (fst (fst (setupClusters cs utils))) b =
     map_option (\<lambda>c. fst (fst (setupCluster utils c))) (map_of cs b)"
  unfolding setupClusters_clusters by (induction cs) simp_all

lemma setupCluster_handles:
  "client (fst (fst (setupCluster utils c))) = handle (newClient utils (brokers c)) \<and>
   consumer (fst (fst (setupCluster utils c))) =
     handle (newConsumerFromClient utils (handle (newClient utils (brokers c)))) \<and>
   brokers (fst (fst (setupCluster utils c))) = brokers c"
  by (simp add: setupCluster_def Let_def)

text \<open>An error of the first phase always ends in the panic of \<open>closeAll\<close>.\<close>

lemma setupPartitionConsumers_cluster_failure:
  assumes "snd (fst (setupClusters (newClusters conf) (kafkaUtils k))) \<noteq> []"
  shows "fst (setupPartitionConsumers k conf) = Panic"
proof -
  obtain cs errs ev where s: "setupClusters (newClusters conf) (kafkaUtils k) = ((cs, errs), ev)"
    by (metis surj_pair)
  with assms have e: "errs \<noteq> []" by simp
  with setupClusters_live [of "newClusters conf" "kafkaUtils k"] s
  have "\<not> list_all (\<lambda>bc. live (snd bc)) cs" by simp
  then have "fst (giveUp k ''%v error(s) while setting up consumers:'' errs cs) = Panic"
    by (simp add: giveUp_fst)
  with s e show ?thesis
    by (auto simp: setupPartitionConsumers_def split: prod.splits)
qed

section \<open>The second phase\<close>

lemma handles_register: "handles (register b pc cs) = handles cs"
  by (induction cs) (simp_all add: handles_def)

lemma handles_live:
  "list_all (\<lambda>bc. live (snd bc)) cs \<longleftrightarrow>
   list_all (\<lambda>h. fst (snd h) \<noteq> None \<and> snd (snd h) \<noteq> None) (handles cs)"
  by (simp add: handles_def list_all_iff live_def)

lemma handles_consumers:
  "(\<lambda>bc. consumer (snd bc)) ` set cs = (\<lambda>h. fst (snd h)) ` set (handles cs)"
  by (force simp: handles_def image_iff)

lemma map_of_handles:
  "map_of (handles cs) b = map_option (\<lambda>cl. (consumer cl, client cl)) (map_of cs b)"
  by (induction cs) (simp_all add: handles_def)

lemma resolveOffset_events:
  "e \<in> set (snd (resolveOffset k s bs topic part cl)) \<Longrightarrow>
   \<exists>c time. cl = Some c \<and> e = Call_GetOffset c topic part time"
  by (auto simp: resolveOffset_def split: if_splits option.splits sum.splits)

lemma resolveOffset_live:
  "resolveOffset k s bs topic part (Some c) = (r, ev) \<Longrightarrow> r \<noteq> Panic"
  by (auto simp: resolveOffset_def split: if_splits option.splits sum.splits)

lemma resolveOffset_no_consume:
  "resolveOffset k s bs topic part cl = (r, ev) \<Longrightarrow> Call_ConsumePartition c t p off \<notin> set ev"
  using resolveOffset_events [of "Call_ConsumePartition c t p off" k s bs topic part cl]
  by auto

lemma consumePartitions_handles:
  "consumePartitions k cc cl co ps st = (Done (st', fin), ev) \<Longrightarrow>
   handles (clusters st') = handles (clusters st)"
proof (induction ps arbitrary: st ev)
  case Nil
  then show ?case by simp
next
  case (Cons p ps)
  then show ?case
    by (auto simp: handles_register split: prod.splits res.splits sum.splits option.splits)
qed

lemma consumePartitions_consumer:
  "consumePartitions k cc cl co ps st = (r, ev) \<Longrightarrow>
   Call_ConsumePartition c topic part off \<in> set ev \<Longrightarrow> co = Some c"
proof (induction ps arbitrary: st r ev)
  case Nil
  then show ?case by simp
next
  case (Cons p ps)
  then show ?case
    by (auto split: prod.splits res.splits sum.splits option.splits
        dest: resolveOffset_no_consume)
qed

lemma consumePartitions_live:
  "consumePartitions k cc (Some cl) (Some co) ps st = (r, ev) \<Longrightarrow> r \<noteq> Panic"
proof (induction ps arbitrary: st r ev)
  case Nil
  then show ?case by auto
next
  case (Cons p ps)
  then show ?case
    by (auto split: prod.splits res.splits sum.splits dest: resolveOffset_live)
qed

lemma consumeAll_handles:
  "consumeAll k cc cl co ps st = (Done st', ev) \<Longrightarrow>
   handles (clusters st') = handles (clusters st)"
  by (auto simp: consumeAll_def split: prod.splits res.splits dest: consumePartitions_handles)

lemma consumeAll_consumer:
  "consumeAll k cc cl co ps st = (r, ev) \<Longrightarrow>
   Call_ConsumePartition c topic part off \<in> set ev \<Longrightarrow> co = Some c"
  by (auto simp: consumeAll_def added_def split: prod.splits res.splits if_splits
      dest: consumePartitions_consumer)

lemma consumeAll_live:
  "consumeAll k cc (Some cl) (Some co) ps st = (r, ev) \<Longrightarrow> r \<noteq> Panic"
  by (auto simp: consumeAll_def split: prod.splits res.splits dest: consumePartitions_live)

lemma worker_handles:
  "worker k cc st = (Done st', ev) \<Longrightarrow> handles (clusters st') = handles (clusters st)"
  by (auto simp: worker_def split: option.splits if_splits sum.splits prod.splits
      dest: consumeAll_handles)

lemma worker_consumer:
  assumes "worker k cc st = (r, ev)" and "Call_ConsumePartition c topic part off \<in> set ev"
  shows "\<exists>bc \<in> set (clusters st). consumer (snd bc) = Some c"
proof -
  from assms obtain cl where cl: "map_of (clusters st) (Join (cfg_brokers cc) '','') = Some cl"
    by (auto simp: worker_def split: option.splits)
  from assms cl have "consumer cl = Some c"
    by (auto simp: worker_def split: option.splits if_splits sum.splits prod.splits
        dest: consumeAll_consumer)
  with map_of_SomeD [OF cl] show ?thesis by force
qed

lemma worker_live:
  assumes "map_of (clusters st) (Join (cfg_brokers cc) '','') = Some cl" and "live cl"
    and "worker k cc st = (r, ev)"
  shows "r \<noteq> Panic"
proof -
  from assms(2) obtain co c where h: "consumer cl = Some co" "client cl = Some c"
    by (auto simp: live_def)
  show ?thesis
    using assms(1,3) h
    by (auto simp: worker_def split: option.splits if_splits sum.splits prod.splits
        dest: consumeAll_live)
qed

lemma workers_handles:
  "workers k ccs st = (Done st', ev) \<Longrightarrow> handles (clusters st') = handles (clusters st)"
proof (induction ccs arbitrary: st ev)
  case Nil
  then show ?case by simp
next
  case (Cons cc ccs)
  obtain r1 ev1 where w: "worker k cc st = (r1, ev1)"
    by (cases "worker k cc st")
  with Cons.prems obtain st1 ev2 where
    r1: "r1 = Done st1" and ws: "workers k ccs st1 = (Done st', ev2)"
    by (auto split: prod.splits res.splits)
  from Cons.IH [OF ws] worker_handles [of k cc st st1 ev1] w r1
  show ?case by simp
qed

lemma workers_consumer:
  "workers k ccs st = (r, ev) \<Longrightarrow> Call_ConsumePartition c topic part off \<in> set ev \<Longrightarrow>
   Some c \<in> (\<lambda>h. fst (snd h)) ` set (handles (clusters st))"
proof (induction ccs arbitrary: st r ev)
  case Nil
  then show ?case by simp
next
  case (Cons cc ccs)
  obtain r1 ev1 where w: "worker k cc st = (r1, ev1)"
    by (cases "worker k cc st")
  show ?case
  proof (cases "Call_ConsumePartition c topic part off \<in> set ev1")
    case True
    with w have "\<exists>bc \<in> set (clusters st). consumer (snd bc) = Some c"
      by (rule worker_consumer)
    then show ?thesis
      unfolding handles_consumers [symmetric] by force
  next
    case False
    with Cons.prems w obtain st1 r2 ev2 where
      r1: "r1 = Done st1" and ws: "workers k ccs st1 = (r2, ev2)"
      and ev: "Call_ConsumePartition c topic part off \<in> set ev2"
      by (auto split: prod.splits res.splits)
    from Cons.IH [OF ws ev] worker_handles [of k cc st st1 ev1] w r1
    show ?thesis by simp
  qed
qed

lemma ready_live:
  "ready cs cc \<Longrightarrow> \<exists>cl. map_of cs (Join (cfg_brokers cc) '','') = Some cl \<and> live cl"
  by (auto simp: ready_def map_of_handles live_def split: option.splits)

lemma workers_live:
  "list_all (ready (clusters st)) ccs \<Longrightarrow> workers k ccs st = (r, ev) \<Longrightarrow> r \<noteq> Panic"
proof (induction ccs arbitrary: st r ev)
  case Nil
  then show ?case by auto
next
  case (Cons cc ccs)
  obtain r1 ev1 where w: "worker k cc st = (r1, ev1)"
    by (cases "worker k cc st")
  from Cons.prems(1) have "ready (clusters st) cc" by simp
  then obtain cl where "map_of (clusters st) (Join (cfg_brokers cc) '','') = Some cl" "live cl"
    using ready_live by blast
  then have "r1 \<noteq> Panic" using w by (rule worker_live)
  then obtain st1 where r1: "r1 = Done st1" by (cases r1) auto
  obtain r2 ev2 where ws: "workers k ccs st1 = (r2, ev2)"
    by (cases "workers k ccs st1")
  have "handles (clusters st1) = handles (clusters st)"
    using w r1 worker_handles by blast
  then have "ready (clusters st1) = ready (clusters st)"
    by (simp add: fun_eq_iff ready_def)
  then have "list_all (ready (clusters st1)) ccs"
    using Cons.prems(1) by simp
  from Cons.IH [OF this ws] have "r2 \<noteq> Panic" .
  with Cons.prems(2) w r1 ws show ?case by auto
qed

lemma setupClusters_ready:
  assumes "snd (fst (setupClusters (newClusters conf) utils)) = []"
  shows "list_all (ready (fst (fst (setupClusters (newClusters conf) utils)))) (consumers conf)"
proof -
  let ?cs = "fst (fst (setupClusters (newClusters conf) utils))"
  have "ready ?cs cc" if "cc \<in> set (consumers conf)" for cc
  proof -
    from newClusters_lookup [OF that] obtain cl0 where
      "map_of (newClusters conf) (Join (cfg_brokers cc) '','') = Some cl0"
      by (auto simp: key_def)
    then have m: "map_of ?cs (Join (cfg_brokers cc) '','') = Some (fst (fst (setupCluster utils cl0)))"
      by (simp add: setupClusters_map_of)
    from map_of_SomeD [OF m] assms setupClusters_live [of "newClusters conf" utils]
    have "live (fst (fst (setupCluster utils cl0)))"
      by (auto simp: list_all_iff)
    with m show ?thesis
      by (auto simp: ready_def map_of_handles live_def)
  qed
  then show ?thesis by (simp add: list_all_iff)
qed

text \<open>The loop over the partitions, cut after the partitions it has got through.\<close>

lemma consumePartitions_append:
  "consumePartitions k cc cl co qs st = (Done (st1, True), ev1) \<Longrightarrow>
   consumePartitions k cc cl co (qs @ rest) st =
     (case consumePartitions k cc cl co rest st1 of (r, ev2) \<Rightarrow> (r, ev1 @ ev2))"
proof (induction qs arbitrary: st ev1)
  case Nil
  then show ?case by (auto split: prod.splits)
next
  case (Cons q qs)
  from Cons.prems obtain off evq c pc evr where
    q: "resolveOffset k (cfg_offset cc) (cfg_brokers cc) (cfg_topic cc) q cl = (Done (Inr off), evq)"
    and c: "co = Some c"
    and pc: "ConsumePartition k c (cfg_topic cc) q off = Inr pc"
    and r: "consumePartitions k cc cl co qs
              (st\<lparr>clusters := register (Join (cfg_brokers cc) '','') pc (clusters st),
                  partitionConsumerChans := partitionConsumerChans st @ [Messages k pc]\<rparr>) =
            (Done (st1, True), evr)"
    and ev1: "ev1 = evq @ [Call_ConsumePartition c (cfg_topic cc) q off] @ evr"
    by (auto split: prod.splits res.splits sum.splits option.splits)
  show ?case
    using q c pc ev1 Cons.IH [OF r] by (simp split: prod.splits)
qed

text \<open>
  Claim C3, as the code has it. When the offset of a target partition cannot be resolved,
  after the partitions \<open>qs\<close> before it went through, the goroutine appends one error and
  returns: its result and its calls are those of \<open>qs\<close> and of the failed resolution,
  whatever partitions \<open>ps\<close> remain. The remaining partitions of the consumer are not
  attempted.
\<close>

theorem offset_failure_ends_worker:
  assumes "consumePartitions k cc cl co qs st = (Done (st1, True), ev1)"
    and "resolveOffset k (cfg_offset cc) (cfg_brokers cc) (cfg_topic cc) p cl = (Done (Inl err), ev)"
  shows "consumePartitions k cc cl co (qs @ p # ps) st =
           (Done (st1\<lparr>errors := errors st1 @
                        [Errorf ''Could not resolve offset for %v, %v, %v. err=%v''
                           [VStrs (cfg_brokers cc), VStr (cfg_topic cc), VInt (sint p), VErr err]]\<rparr>,
                  False),
            ev1 @ ev)"
  using assms(2) by (simp add: consumePartitions_append [OF assms(1)])

lemma lookback_offset: "ParseInt ''-5'' = Some (- 5)"
  by (simp add: ParseInt_def digit_def)

lemma lookback_0:
  "resolveOffset partition_1_down ''-5'' [''b:9092''] ''t'' 0 (Some (Client 0)) =
     (Done (Inr 95),
      [Call_GetOffset (Client 0) ''t'' 0 OffsetOldest, Call_GetOffset (Client 0) ''t'' 0 OffsetNewest])"
  by (simp add: resolveOffset_def lookback_offset partition_1_down_def broker_100_10_def
      OffsetOldest_def OffsetNewest_def)

lemma lookback_1:
  "resolveOffset partition_1_down ''-5'' [''b:9092''] ''t'' 1 (Some (Client 0)) =
     (Done (Inl (LibError ''kafka: leader not available'')),
      [Call_GetOffset (Client 0) ''t'' 1 OffsetOldest])"
  by (simp add: resolveOffset_def lookback_offset partition_1_down_def broker_100_10_def
      OffsetOldest_def OffsetNewest_def)

lemma lookback_first:
  "consumePartitions partition_1_down lookback (Some (Client 0)) (Some (Consumer 0)) [0] opened =
     (Done (opened\<lparr>clusters :=
                      [(''b:9092'', \<lparr>brokers = [''b:9092''], consumer = Some (Consumer 0),
                                      client = Some (Client 0),
                                      partitionConsumers = [PartitionConsumer 0]\<rparr>)],
                    partitionConsumerChans := [Chan 0]\<rparr>, True),
      [Call_GetOffset (Client 0) ''t'' 0 OffsetOldest, Call_GetOffset (Client 0) ''t'' 0 OffsetNewest,
       Call_ConsumePartition (Consumer 0) ''t'' 0 95])"
  by (simp add: lookback_def lookback_0) (simp add: partition_1_down_def broker_100_10_def opened_def)

text \<open>
  In the world \<open>partition_1_down\<close> the loop over the partitions 0, 1, 2 opens partition 0,
  fails on partition 1 and stops.
\<close>

theorem offset_failure_ends_worker_witness:
  "consumePartitions partition_1_down lookback (Some (Client 0)) (Some (Consumer 0)) [0, 1, 2] opened =
     (Done (opened\<lparr>clusters :=
                      [(''b:9092'', \<lparr>brokers = [''b:9092''], consumer = Some (Consumer 0),
                                      client = Some (Client 0),
                                      partitionConsumers = [PartitionConsumer 0]\<rparr>)],
                    partitionConsumerChans := [Chan 0],
                    errors := [Errorf ''Could not resolve offset for %v, %v, %v. err=%v''
                                 [VStrs [''b:9092''], VStr ''t'', VInt 1,
                                  VErr (LibError ''kafka: leader not available'')]]\<rparr>, False),
      [Call_GetOffset (Client 0) ''t'' 0 OffsetOldest, Call_GetOffset (Client 0) ''t'' 0 OffsetNewest,
       Call_ConsumePartition (Consumer 0) ''t'' 0 95,
       Call_GetOffset (Client 0) ''t'' 1 OffsetOldest])"
proof -
  have r: "resolveOffset partition_1_down (cfg_offset lookback) (cfg_brokers lookback)
             (cfg_topic lookback) 1 (Some (Client 0)) =
           (Done (Inl (LibError ''kafka: leader not available'')),
            [Call_GetOffset (Client 0) ''t'' 1 OffsetOldest])"
    by (simp add: lookback_def lookback_1)
  show ?thesis
    using offset_failure_ends_worker [OF lookback_first r, of "[2]"]
    by (simp add: lookback_def opened_def)
qed

lemma lookback_opened:
  "fst (setupClusters (newClusters \<lparr>consumers = [lookback]\<rparr>) (kafkaUtils partition_1_down)) =
     (clusters opened, errors opened)"
  by (simp add: newClusters_def addCluster_def lookback_def setupCluster_def kafkaUtils_def
      partition_1_down_def broker_100_10_def handle_def failure_def opened_def)

text \<open>
  Claim C3 as stated fails: it says that after the failure on one partition the goroutine
  still resolves and opens the remaining partitions. In the world \<open>partition_1_down\<close>
  the goroutine of the consumer \<open>lookback\<close> makes no call at all for partition 2, whose
  offsets can be read.
\<close>

theorem worker_leaves_partitions_untried:
  "worker partition_1_down lookback opened =
     (Done (opened\<lparr>clusters :=
                      [(''b:9092'', \<lparr>brokers = [''b:9092''], consumer = Some (Consumer 0),
                                      client = Some (Client 0),
                                      partitionConsumers = [PartitionConsumer 0]\<rparr>)],
                    partitionConsumerChans := [Chan 0],
                    errors := [Errorf ''Could not resolve offset for %v, %v, %v. err=%v''
                                 [VStrs [''b:9092''], VStr ''t'', VInt 1,
                                  VErr (LibError ''kafka: leader not available'')]]\<rparr>),
      [Call_Partitions (Consumer 0) ''t'',
       Call_GetOffset (Client 0) ''t'' 0 OffsetOldest, Call_GetOffset (Client 0) ''t'' 0 OffsetNewest,
       Call_ConsumePartition (Consumer 0) ''t'' 0 95,
       Call_GetOffset (Client 0) ''t'' 1 OffsetOldest]) \<and>
   fst (setupClusters (newClusters \<lparr>consumers = [lookback]\<rparr>) (kafkaUtils partition_1_down)) =
     (clusters opened, errors opened) \<and>
   Partitions partition_1_down (Consumer 0) ''t'' = Inr [0, 1, 2] \<and>
   fst (resolveOffset partition_1_down ''-5'' [''b:9092''] ''t'' 2 (Some (Client 0))) = Done (Inr 95)"
proof -
  note lookback_opened
  moreover have "Partitions partition_1_down (Consumer 0) ''t'' = Inr [0, 1, 2]"
    by (simp add: partition_1_down_def)
  moreover have "fst (resolveOffset partition_1_down ''-5'' [''b:9092''] ''t'' 2 (Some (Client 0))) = Done (Inr 95)"
    by (simp add: resolveOffset_def lookback_offset partition_1_down_def broker_100_10_def
      OffsetOldest_def OffsetNewest_def)
  moreover have "consumePartitions partition_1_down lookback (Some (Client 0)) (Some (Consumer 0)) [0, 1, 2] opened
     = (Done (opened\<lparr>clusters :=
                      [(''b:9092'', \<lparr>brokers = [''b:9092''], consumer = Some (Consumer 0),
                                      client = Some (Client 0),
                                      partitionConsumers = [PartitionConsumer 0]\<rparr>)],
                    partitionConsumerChans := [Chan 0],
                    errors := [Errorf ''Could not resolve offset for %v, %v, %v. err=%v''
                                 [VStrs [''b:9092''], VStr ''t'', VInt 1,
                                  VErr (LibError ''kafka: leader not available'')]]\<rparr>, False),
      [Call_GetOffset (Client 0) ''t'' 0 OffsetOldest, Call_GetOffset (Client 0) ''t'' 0 OffsetNewest,
       Call_ConsumePartition (Consumer 0) ''t'' 0 95,
       Call_GetOffset (Client 0) ''t'' 1 OffsetOldest])"
    using consumePartitions_append [OF lookback_first, of "[1, 2]"]
    by (simp add: lookback_def lookback_1) (simp add: opened_def)
  moreover have "map_of (clusters opened) (Join (cfg_brokers lookback) '','') =
      Some \<lparr>brokers = [''b:9092''], consumer = Some (Consumer 0), client = Some (Client 0),
            partitionConsumers = []\<rparr>"
    by (simp add: lookback_def opened_def)
  moreover have "cfg_partition lookback = - 1" "cfg_topic lookback = ''t''"
    by (simp_all add: lookback_def)
  ultimately show ?thesis
    by (simp add: worker_def consumeAll_def del: consumePartitions.simps)
qed

section \<open>Handles and partition consumers\<close>

lemma closePartitionConsumers_no_consume:
  "filter isConsume (closePartitionConsumers k bs pcs) = []"
  by (induction pcs) (simp_all add: isConsume_def split: option.splits)

lemma close_no_consume: "filter isConsume (snd (close k c)) = []"
  by (simp add: close_def Let_def closePartitionConsumers_no_consume isConsume_def
      split: option.splits)

lemma closeClusters_no_consume: "filter isConsume (snd (closeClusters k cs)) = []"
proof (induction cs)
  case Nil
  then show ?case by simp
next
  case (Cons bc cs)
  with close_no_consume [of k "snd bc"] show ?case
    by (auto split: prod.splits res.splits)
qed

lemma logErrors_no_consume: "filter isConsume (logErrors errs i) = []"
  by (induction errs arbitrary: i) (simp_all add: isConsume_def)

lemma giveUp_no_consume: "filter isConsume (snd (giveUp k h errs cs)) = []"
  using closeClusters_no_consume [of k cs]
  by (auto simp: giveUp_def closeAll_def logErrors_no_consume isConsume_def
      split: prod.splits res.splits)

lemma setupClusters_no_consume: "filter isConsume (snd (setupClusters cs utils)) = []"
  by (induction cs) (auto simp: setupCluster_def Let_def isConsume_def split: prod.splits)

lemma no_consume:
  "filter isConsume ev = [] \<Longrightarrow> Call_ConsumePartition co topic part off \<notin> set ev"
  by (auto simp: filter_empty_conv isConsume_def)

lemma setupPartitionConsumers_consume:
  assumes "Call_ConsumePartition co topic part off \<in> set (snd (setupPartitionConsumers k conf))"
  shows "snd (fst (setupClusters (newClusters conf) (kafkaUtils k))) = [] \<and>
         (\<exists>bc \<in> set (fst (fst (setupClusters (newClusters conf) (kafkaUtils k)))).
            consumer (snd bc) = Some co \<and> client (snd bc) \<noteq> None)"
proof -
  let ?e = "Call_ConsumePartition co topic part off"
  obtain cs errs ev1 where s: "setupClusters (newClusters conf) (kafkaUtils k) = ((cs, errs), ev1)"
    by (metis surj_pair)
  have n1: "?e \<notin> set ev1"
    using setupClusters_no_consume [of "newClusters conf" "kafkaUtils k"] s
    by (auto dest: no_consume)
  have ng: "?e \<notin> set ev" if "giveUp k h es ds = (r, ev)" for h es ds r ev
    using giveUp_no_consume [of k h es ds] that by (auto dest: no_consume)
  have e: "errs = []"
  proof (rule ccontr)
    assume "errs \<noteq> []"
    with s n1 assms
    show False
      by (auto simp: setupPartitionConsumers_def split: prod.splits dest: ng)
  qed
  let ?st = "\<lparr>clusters = cs, errors = [], partitionConsumerChans = []\<rparr>"
  obtain r ev2 where w: "workers k (consumers conf) ?st = (r, ev2)"
    by (cases "workers k (consumers conf) ?st")
  have "?e \<in> set ev2"
    using assms s e w n1
    by (auto simp: setupPartitionConsumers_def split: prod.splits res.splits if_splits dest: ng)
  with w have "Some co \<in> (\<lambda>h. fst (snd h)) ` set (handles (clusters ?st))"
    by (rule workers_consumer)
  then obtain bc where bc: "bc \<in> set cs" "consumer (snd bc) = Some co"
    unfolding handles_consumers [symmetric] by auto
  from setupClusters_live [of "newClusters conf" "kafkaUtils k"] s e bc(1)
  have "live (snd bc)" by (auto simp: list_all_iff)
  with bc s e show ?thesis by (auto simp: live_def)
qed

text \<open>
  Claim C4 as stated fails: it says that after \<open>setupClusters\<close> no cluster holds an
  opened client beside an unset consumer. In the world \<open>no_consumer\<close> the cluster holds
  the client and a nil consumer.
\<close>

theorem setupClusters_client_without_consumer:
  "map (\<lambda>bc. (client (snd bc), consumer (snd bc)))
     (fst (fst (setupClusters (newClusters one) (kafkaUtils no_consumer)))) =
   [(Some (Client 0), None)]"
  by (simp add: no_consumer_clusters)

text \<open>
  Claim C4, as the code has it. After \<open>setupClusters\<close> every cluster holds what
  \<open>newClient\<close> returned for its brokers and what \<open>newConsumerFromClient\<close> returned for
  that client, set or not. When \<open>setupClusters\<close> returns no error, both handles of every
  cluster are set. \<open>setupPartitionConsumers\<close> calls \<open>ConsumePartition\<close> only when the
  first phase returned no error, and only on the consumer of a cluster of the registry
  whose client is set as well.
\<close>

theorem setupClusters_stores_results:
  "(\<forall>bc \<in> set (fst (fst (setupClusters cs utils))).
      client (snd bc) = handle (newClient utils (brokers (snd bc))) \<and>
      consumer (snd bc) = handle (newConsumerFromClient utils (client (snd bc)))) \<and>
   (snd (fst (setupClusters cs utils)) = [] \<longrightarrow>
      list_all (\<lambda>bc. client (snd bc) \<noteq> None \<and> consumer (snd bc) \<noteq> None)
        (fst (fst (setupClusters cs utils)))) \<and>
   (Call_ConsumePartition co topic part off \<in> set (snd (setupPartitionConsumers k conf)) \<longrightarrow>
      snd (fst (setupClusters (newClusters conf) (kafkaUtils k))) = [] \<and>
      (\<exists>bc \<in> set (fst (fst (setupClusters (newClusters conf) (kafkaUtils k)))).
         consumer (snd bc) = Some co \<and> client (snd bc) \<noteq> None))"
proof (intro conjI impI)
  show "\<forall>bc \<in> set (fst (fst (setupClusters cs utils))).
      client (snd bc) = handle (newClient utils (brokers (snd bc))) \<and>
      consumer (snd bc) = handle (newConsumerFromClient utils (client (snd bc)))"
    by (auto simp: setupClusters_clusters setupCluster_handles)
next
  assume "snd (fst (setupClusters cs utils)) = []"
  then have "list_all (\<lambda>bc. live (snd bc)) (fst (fst (setupClusters cs utils)))"
    by (simp add: setupClusters_live)
  then show "list_all (\<lambda>bc. client (snd bc) \<noteq> None \<and> consumer (snd bc) \<noteq> None)
        (fst (fst (setupClusters cs utils)))"
    by (simp add: live_def list_all_iff)
next
  assume a: "Call_ConsumePartition co topic part off \<in> set (snd (setupPartitionConsumers k conf))"
  from setupPartitionConsumers_consume [OF a]
  show "snd (fst (setupClusters (newClusters conf) (kafkaUtils k))) = []"
    and "\<exists>bc \<in> set (fst (fst (setupClusters (newClusters conf) (kafkaUtils k)))).
         consumer (snd bc) = Some co \<and> client (snd bc) \<noteq> None"
    by simp_all
qed

lemma one_ready:
  "setupPartitionConsumers broker_100_10 one =
     (Done (Some [Chan 0],
            Some [(''b:9092'', \<lparr>brokers = [''b:9092''], consumer = Some (Consumer 0),
                                 client = Some (Client 0),
                                 partitionConsumers = [PartitionConsumer 0]\<rparr>)],
            True),
      [Printf ''Adding client+consumer for cluster with brokers %v'' [VStrs [''b:9092'']],
       Call_newClient [''b:9092''],
       Call_newConsumerFromClient (Some (Client 0)),
       Call_ConsumePartition (Consumer 0) ''t'' 0 OffsetOldest,
       Printf ''Added %v partition consumer(s) for topic [%v]'' [VInt 1, VStr ''t''],
       Printf ''Successfully finished setting up partition consumers. Ready to consume, bro!'' []])"
  by (simp add: setupPartitionConsumers_def one_clusters)
     (simp add: one_def worker_def consumeAll_def added_def resolveOffset_def broker_100_10_def)

theorem setupClusters_stores_results_witness:
  "fst (setupClusters (newClusters one) (kafkaUtils broker_100_10)) =
     ([(''b:9092'', \<lparr>brokers = [''b:9092''], consumer = Some (Consumer 0),
                      client = Some (Client 0), partitionConsumers = []\<rparr>)], []) \<and>
   Call_ConsumePartition (Consumer 0) ''t'' 0 OffsetOldest
     \<in> set (snd (setupPartitionConsumers broker_100_10 one)) \<and>
   list_all (\<lambda>bc. client (snd bc) \<noteq> None \<and> consumer (snd bc) \<noteq> None)
     (fst (fst (setupClusters (newClusters one) (kafkaUtils broker_100_10)))) \<and>
   (\<exists>bc \<in> set (fst (fst (setupClusters (newClusters one) (kafkaUtils broker_100_10)))).
      client (snd bc) = handle (newClient (kafkaUtils broker_100_10) (brokers (snd bc))) \<and>
      consumer (snd bc) = Some (Consumer 0) \<and> client (snd bc) \<noteq> None)"
proof -
  have e: "Call_ConsumePartition (Consumer 0) ''t'' 0 OffsetOldest
             \<in> set (snd (setupPartitionConsumers broker_100_10 one))"
    by (simp add: one_ready)
  have n: "snd (fst (setupClusters (newClusters one) (kafkaUtils broker_100_10))) = []"
    by (simp add: one_clusters)
  from setupClusters_stores_results
         [of "newClusters one" "kafkaUtils broker_100_10" "Consumer 0" "''t''" 0 OffsetOldest
             broker_100_10 one] e n
  show ?thesis
    by (simp add: one_clusters) (simp add: kafkaUtils_def broker_100_10_def handle_def)
qed

section \<open>The result of \<open>setupPartitionConsumers\<close>\<close>

text \<open>
  \<open>setupPartitionConsumers\<close> panics exactly when the first phase records an error.
  After an error of the second phase it logs every error with its index, closes every
  cluster (all partition consumers, the consumer, the client) and returns
  \<open>nil, nil, false\<close>.
\<close>

lemma setupPartitionConsumers_Panic_iff:
  "fst (setupPartitionConsumers k conf) = Panic \<longleftrightarrow>
   snd (fst (setupClusters (newClusters conf) (kafkaUtils k))) \<noteq> []"
proof (cases "snd (fst (setupClusters (newClusters conf) (kafkaUtils k))) = []")
  case False
  then show ?thesis by (simp add: setupPartitionConsumers_cluster_failure)
next
  case True
  obtain cs errs ev where s: "setupClusters (newClusters conf) (kafkaUtils k) = ((cs, errs), ev)"
    by (metis surj_pair)
  with True have e: "errs = []" by simp
  from setupClusters_ready [OF True] s have rdy: "list_all (ready cs) (consumers conf)" by simp
  from setupClusters_live [of "newClusters conf" "kafkaUtils k"] s e
  have lv: "list_all (\<lambda>bc. live (snd bc)) cs" by simp
  let ?st = "\<lparr>clusters = cs, errors = [], partitionConsumerChans = []\<rparr>"
  obtain r ev2 where w: "workers k (consumers conf) ?st = (r, ev2)"
    by (cases "workers k (consumers conf) ?st")
  from rdy have "r \<noteq> Panic"
    using workers_live [of ?st "consumers conf" k r ev2] w by simp
  then obtain st where r: "r = Done st" by (cases r) auto
  have "handles (clusters st) = handles cs"
    using workers_handles [of k "consumers conf" ?st st ev2] w r by simp
  with lv have lv': "list_all (\<lambda>bc. live (snd bc)) (clusters st)"
    by (simp add: handles_live)
  have "fst (setupPartitionConsumers k conf) \<noteq> Panic"
    using s e w r lv'
    by (auto simp: setupPartitionConsumers_def giveUp_fst split: prod.splits dest: arg_cong [where f = fst])
  with True show ?thesis by simp
qed

lemma logErrors_all:
  "logErrors errs i =
     map (\<lambda>(j, e). Printf ''Error #%v: %v'' [VInt (int j), VErr e]) (zip [i ..< i + length errs] errs)"
proof (induction errs arbitrary: i)
  case Nil
  then show ?case by simp
next
  case (Cons e errs)
  have "[i ..< i + length (e # errs)] = i # [Suc i ..< Suc i + length errs]"
    by (simp add: upt_rec)
  with Cons [of "Suc i"] show ?case by simp
qed

lemma setupPartitionConsumers_partition_failure:
  assumes "setupClusters (newClusters conf) (kafkaUtils k) = ((cs, []), ev1)"
    and "workers k (consumers conf) \<lparr>clusters = cs, errors = [], partitionConsumerChans = []\<rparr> =
           (Done st, ev2)"
    and "errors st \<noteq> []"
  shows "setupPartitionConsumers k conf =
           (Done (None, None, False),
            ev1 @ ev2 @
            Printf ''%v error(s) while setting up partition consumers:'' [VInt (int (length (errors st)))] #
            logErrors (errors st) 0 @ snd (closeAll k (clusters st))) \<and>
         filter isClose (snd (closeAll k (clusters st))) =
           concat (map (\<lambda>bc. closes (snd bc)) (clusters st))"
proof -
  from setupClusters_live [of "newClusters conf" "kafkaUtils k"] assms(1)
  have "list_all (\<lambda>bc. live (snd bc)) cs" by simp
  moreover have "handles (clusters st) = handles cs"
    using workers_handles [OF assms(2)] by simp
  ultimately have "list_all (\<lambda>bc. live (snd bc)) (clusters st)"
    by (simp add: handles_live)
  from closeAll_best_effort [OF this, of k] assms show ?thesis
    by (auto simp: setupPartitionConsumers_def giveUp_def split: prod.splits res.splits)
qed

lemma setupPartitionConsumers_success:
  assumes "setupClusters (newClusters conf) (kafkaUtils k) = ((cs, []), ev1)"
    and "workers k (consumers conf) \<lparr>clusters = cs, errors = [], partitionConsumerChans = []\<rparr> =
           (Done st, ev2)"
    and "errors st = []"
  shows "fst (setupPartitionConsumers k conf) =
           Done (Some (partitionConsumerChans st), Some (clusters st), True)"
  using assms by (simp add: setupPartitionConsumers_def)

text \<open>
  Claim C1 says that after an error of either phase \<open>setupPartitionConsumers\<close> logs
  the errors, closes every cluster and returns \<open>nil, nil, false\<close>. In the world
  \<open>no_consumer\<close>, where the first phase records an error, it logs the error, enters
  \<open>closeAll\<close> and panics on the nil consumer of the cluster: nothing is returned, and
  the client that was opened is not closed.
\<close>

theorem setupPartitionConsumers_panics:
  "setupPartitionConsumers no_consumer one =
     (Panic,
      [Printf ''Adding client+consumer for cluster with brokers %v'' [VStrs [''b:9092'']],
       Call_newClient [''b:9092''],
       Call_newConsumerFromClient (Some (Client 0)),
       Printf ''%v error(s) while setting up consumers:'' [VInt 1],
       Printf ''Error #%v: %v''
         [VInt 0,
          VErr (Errorf ''Error creating consumer. err=%v''
                  [VErr (LibError ''kafka: tried to use a client that was closed'')])],
       Printf ''Trying to close all clusters'' [],
       Printf ''Trying to close cluster with brokers %v'' [VStrs [''b:9092'']],
       Printf ''Trying to close %v partition consumers for cluster with brokers %v''
         [VInt 0, VStrs [''b:9092'']],
       Printf ''Trying to close consumer for cluster with brokers %v'' [VStrs [''b:9092'']]])"
  by (simp add: setupPartitionConsumers_def no_consumer_clusters giveUp_def closeAll_def close_def)

end
